theory Spec2Isabelle
  imports Main "HOL-Library.Sublist" "HOL-Library.AList"
begin

section \<open>Python strings\<close>

text \<open>
  A Python \<open>str\<close> is a sequence of code points. The model uses \<open>string\<close>, whose
  characters are the code points below 256 (Latin-1), which is enough for every literal
  of the program (the genre key with an accented o is code point 243). The predicates
  and case mappings below are those of Python on these code points.
\<close>

definition in_range :: "nat \<Rightarrow> nat \<Rightarrow> char \<Rightarrow> bool" where
  "in_range lo hi c = (lo \<le> (of_char c :: nat) \<and> (of_char c :: nat) \<le> hi)"

text \<open>\<open>str.isspace\<close> on one code point: tab to carriage return, the four separators
  28 to 31, the space, NEL (133) and the no-break space (160).\<close>

definition py_isspace :: "char \<Rightarrow> bool" where
  "py_isspace c = (in_range 9 13 c \<or> in_range 28 32 c \<or> in_range 133 133 c \<or> in_range 160 160 c)"

text \<open>\<open>str.strip()\<close>: whitespace is removed at both ends.\<close>

definition py_strip :: "string \<Rightarrow> string" where
  "py_strip s = rev (dropWhile py_isspace (rev (dropWhile py_isspace s)))"

text \<open>\<open>str.lower()\<close>: A to Z and the Latin-1 capitals (192 to 222 without the
  multiplication sign 215) move up by 32.\<close>

definition lower_char :: "char \<Rightarrow> char" where
  "lower_char c =
     (if in_range 65 90 c \<or> (in_range 192 222 c \<and> \<not> in_range 215 215 c)
      then char_of ((of_char c :: nat) + 32) else c)"

definition py_lower :: "string \<Rightarrow> string" where
  "py_lower s = map lower_char s"

text \<open>\<open>str.upper()\<close>: a to z and the Latin-1 small letters (224 to 254 without the
  division sign 247) move down by 32; the sharp s (223) becomes the two letters SS.
  The micro sign (181) and y with diaeresis (255) have capitals above 255, which this
  type cannot hold: they are left as they are, which like their capitals are no
  letter A to Z and no digit.\<close>

definition upper_char :: "char \<Rightarrow> string" where
  "upper_char c =
     (if in_range 97 122 c \<or> (in_range 224 254 c \<and> \<not> in_range 247 247 c)
      then [char_of ((of_char c :: nat) - 32)]
      else if in_range 223 223 c then ''SS'' else [c])"

definition py_upper :: "string \<Rightarrow> string" where
  "py_upper s = concat (map upper_char s)"

text \<open>\<open>needle in haystack\<close> on strings: the needle occurs at some position.\<close>

fun str_contains :: "string \<Rightarrow> string \<Rightarrow> bool" where
  "str_contains p [] = (p = [])"
| "str_contains p (x # xs) = (prefix p (x # xs) \<or> str_contains p xs)"

section \<open>Values and errors\<close>

text \<open>
  The fields of a release record are strings or \<open>None\<close> (a JSON null). A record is a
  Python dict: an association list in insertion order, updated in place by key.
\<close>

datatype pyval = PNone | PStr string

datatype py_error = AttributeError | TypeError | LookupError | JSONDecodeError | GenerationError

type_synonym dict = "(string \<times> pyval) list"

definition dict_get :: "dict \<Rightarrow> string \<Rightarrow> pyval \<Rightarrow> pyval" where
  "dict_get d k dflt = (case map_of d k of Some v \<Rightarrow> v | None \<Rightarrow> dflt)"

definition dict_set :: "dict \<Rightarrow> string \<Rightarrow> pyval \<Rightarrow> dict" where
  "dict_set d k v = AList.update k v d"

section \<open>validate_isrc\<close>

definition is_AZ :: "char \<Rightarrow> bool" where
  "is_AZ c = in_range 65 90 c"

definition is_09 :: "char \<Rightarrow> bool" where
  "is_09 c = in_range 48 57 c"

definition is_AZ09 :: "char \<Rightarrow> bool" where
  "is_AZ09 c = (is_AZ c \<or> is_09 c)"

text \<open>The twelve characters of the pattern: two of \<open>[A-Z]\<close>, three of \<open>[A-Z0-9]\<close>,
  seven of \<open>[0-9]\<close>.\<close>

definition isrc_shape :: "string \<Rightarrow> bool" where
  "isrc_shape u =
     (length u = 12 \<and> list_all is_AZ (take 2 u) \<and> list_all is_AZ09 (take 3 (drop 2 u))
      \<and> list_all is_09 (drop 5 u))"

text \<open>
  \<open>re.match(r"^[A-Z]{2}[A-Z0-9]{3}[0-9]{7}$", u)\<close>. The pattern consumes exactly twelve
  characters from the start. Without the MULTILINE flag, \<open>$\<close> matches at the end of
  the string and also just before a newline that is the last character.
\<close>

definition re_match_isrc :: "string \<Rightarrow> bool" where
  "re_match_isrc u = (isrc_shape (take 12 u) \<and> (drop 12 u = [] \<or> drop 12 u = [CHR 0x0A]))"

definition remove_hyphens :: "string \<Rightarrow> string" where
  "remove_hyphens s = filter (\<lambda>c. c \<noteq> CHR ''-'') s"

fun validate_isrc :: "pyval \<Rightarrow> bool" where
  "validate_isrc PNone = False"
| "validate_isrc (PStr isrc) =
     (if isrc = [] then False else re_match_isrc (py_upper (remove_hyphens isrc)))"

section \<open>The country catalogue\<close>

text \<open>
  \<open>pycountry\<close> is a library outside the repository, so the catalogue is a parameter of
  the model: \<open>countries_get\<close> is \<open>pycountry.countries.get(alpha_2=...)\<close>, which returns a
  country or \<open>None\<close>, and \<open>search_fuzzy\<close> is \<open>pycountry.countries.search_fuzzy\<close>, which
  returns a list of countries, best match first, or raises. Either may raise.
\<close>

record country =
  alpha_2 :: string
  name :: string

record pycountry =
  countries_get :: "string \<Rightarrow> py_error + country option"
  search_fuzzy :: "string \<Rightarrow> py_error + country list"

text \<open>\<open>get_country_name\<close>: the code is upper-cased for the lookup; any exception gives
  \<open>None\<close>.\<close>

definition get_country_name :: "pycountry \<Rightarrow> string \<Rightarrow> string option" where
  "get_country_name pc code =
     (case countries_get pc (py_upper code) of
        Inl e \<Rightarrow> None
      | Inr None \<Rightarrow> None
      | Inr (Some c) \<Rightarrow> Some (name c))"

section \<open>apply_business_logic\<close>

text \<open>The four blocks of the function, in the order of the source.\<close>

definition apply_defaults :: "dict \<Rightarrow> dict" where
  "apply_defaults data =
     dict_set (dict_set data ''label'' (PStr ''ONErpm'')) ''latin_audience'' (PStr ''Yes'')"

definition genre_map :: "(pyval \<times> pyval) list" where
  "genre_map =
     [(PStr ''Popular'', PStr ''Regional Mexican''),
      (PStr ''trapmambo'', PStr ''Urbano''),
      (PStr (''Electr'' @ [CHR 0xF3] @ ''nica''), PStr ''Electronic''),
      (PStr ''Cumbia'', PStr ''Tropical'')]"

definition genre_mapping :: "dict \<Rightarrow> dict" where
  "genre_mapping data =
     (let genre = dict_get data ''genre'' (PStr [])
      in dict_set data ''genre'' (case map_of genre_map genre of Some g \<Rightarrow> g | None \<Rightarrow> genre))"

text \<open>\<open>data.get("release_type", "").strip()\<close> raises AttributeError when the value is
  \<open>None\<close>. Where no branch of the chain applies, the record is not written.\<close>

definition release_type_mapping :: "dict \<Rightarrow> py_error + dict" where
  "release_type_mapping data =
     (case dict_get data ''release_type'' (PStr []) of
        PNone \<Rightarrow> Inl AttributeError
      | PStr s \<Rightarrow>
          (let rtype = py_strip s; rtype_lower = py_lower rtype
           in if str_contains ''single + video'' rtype_lower
                then Inr (dict_set data ''release_type'' (PStr ''New Single''))
              else if str_contains ''album + video'' rtype_lower
                then Inr (dict_set data ''release_type'' (PStr ''New Album''))
              else if str_contains ''ep + video'' rtype_lower
                then Inr (dict_set data ''release_type'' (PStr ''New EP''))
              else if rtype = []
                then Inr (dict_set data ''release_type'' (PStr ''New Single''))
              else Inr data))"

definition country_fix :: "pycountry \<Rightarrow> dict \<Rightarrow> dict" where
  "country_fix pc data =
     (case dict_get data ''country_code'' (PStr []) of
        PNone \<Rightarrow> data
      | PStr cc \<Rightarrow>
          if cc = [] then data
          else if length cc = 2 then
            (case get_country_name pc cc of
               Some full_name \<Rightarrow>
                 if full_name \<noteq> [] then dict_set data ''country_name'' (PStr full_name)
                 else dict_set data ''country_name'' (PStr [])
             | None \<Rightarrow> dict_set data ''country_name'' (PStr []))
          else
            (case search_fuzzy pc cc of
               Inl e \<Rightarrow> dict_set data ''country_name'' (PStr [])
             | Inr [] \<Rightarrow> data
             | Inr (c # cs) \<Rightarrow>
                 dict_set (dict_set data ''country_name'' (PStr (name c)))
                   ''country_code'' (PStr (alpha_2 c))))"

definition apply_business_logic :: "pycountry \<Rightarrow> dict \<Rightarrow> py_error + dict" where
  "apply_business_logic pc data =
     (case release_type_mapping (genre_mapping (apply_defaults data)) of
        Inl e \<Rightarrow> Inl e
      | Inr data' \<Rightarrow> Inr (country_fix pc data'))"

text \<open>Reading a field of the outcome: nothing when the call raised.\<close>

fun result_field :: "py_error + dict \<Rightarrow> string \<Rightarrow> pyval option" where
  "result_field (Inl e) k = None"
| "result_field (Inr d) k = map_of d k"

text \<open>
  A four-entry catalogue for concrete runs: the codes named in the extraction prompt
  (US, GB, CO) and Mexico. Its fuzzy search finds a country by its name, ignoring case,
  and raises LookupError when there is none, as the library does.
\<close>

definition sample_table :: "country list" where
  "sample_table =
     [\<lparr>alpha_2 = ''US'', name = ''United States''\<rparr>,
      \<lparr>alpha_2 = ''GB'', name = ''United Kingdom''\<rparr>,
      \<lparr>alpha_2 = ''CO'', name = ''Colombia''\<rparr>,
      \<lparr>alpha_2 = ''MX'', name = ''Mexico''\<rparr>]"

definition sample_pycountry :: pycountry where
  "sample_pycountry =
     \<lparr>countries_get = (\<lambda>code. Inr (find (\<lambda>c. alpha_2 c = code) sample_table)),
      search_fuzzy = (\<lambda>q.
        (case filter (\<lambda>c. py_lower (name c) = py_lower q) sample_table of
           [] \<Rightarrow> Inl LookupError
         | hits \<Rightarrow> Inr hits))\<rparr>"

section \<open>clean_json_response\<close>

text \<open>
  \<open>re.sub(p, "", s)\<close> for a pattern \<open>p\<close> without metacharacters: scanning from the left,
  each occurrence found is dropped and the scan goes on behind it, so the occurrences
  removed do not overlap. (With an empty pattern the text comes back as it is.)
\<close>

function re_sub_delete :: "string \<Rightarrow> string \<Rightarrow> string" where
  "re_sub_delete p [] = []"
| "re_sub_delete p (x # xs) =
     (if p \<noteq> [] \<and> prefix p (x # xs) then re_sub_delete p (drop (length p) (x # xs))
      else x # re_sub_delete p xs)"
  by pat_completeness auto
termination
  by (relation "measure (\<lambda>(p, s). length s)") auto

definition clean_json_response :: "string \<Rightarrow> string" where
  "clean_json_response response_text =
     (let text1 = re_sub_delete ''```json'' response_text;
          text2 = re_sub_delete ''```'' text1
      in py_strip text2)"

text \<open>
  The claim's wording of one substitution, as a relation of its own to compare the
  function with: \<open>all_deleted p s t\<close> says that \<open>t\<close> is \<open>s\<close> with every occurrence of \<open>p\<close>
  deleted, the occurrences taken from the left and not overlapping. Either \<open>p\<close> does
  not occur in \<open>s\<close> and \<open>t\<close> is \<open>s\<close>; or \<open>s\<close> is \<open>u\<close>, then \<open>p\<close>, then \<open>v\<close>, where this occurrence
  is the first one (\<open>p\<close> does not occur in \<open>u\<close> followed by \<open>p\<close> without its last character),
  and \<open>t\<close> is \<open>u\<close> followed by \<open>v\<close> treated in the same way.
\<close>

inductive all_deleted :: "string \<Rightarrow> string \<Rightarrow> string \<Rightarrow> bool" for p :: string where
  none: "\<not> sublist p s \<Longrightarrow> all_deleted p s s"
| first: "\<not> sublist p (u @ butlast p) \<Longrightarrow> all_deleted p v t \<Longrightarrow> all_deleted p (u @ p @ v) (u @ t)"

section \<open>parse_release_data and the Parse Data button\<close>

text \<open>
  Two collaborators are outside the repository and are parameters. \<open>generate_content\<close>
  is the call of the text-generation model on the fixed prompt built around the pasted
  text, giving the text of the response or raising. \<open>json_loads\<close> is \<open>json.loads\<close>:
  it raises on text that is not JSON and otherwise returns a document, which is a dict
  or some other JSON value (a list, a string, a number, a boolean, null).
\<close>

datatype json_doc = JDict dict | JOther

record collaborators =
  generate_content :: "string \<Rightarrow> py_error + string"
  json_loads :: "string \<Rightarrow> py_error + json_doc"

text \<open>What a run shows or does besides changing the session state.\<close>

datatype notice =
    Error string
  | ErrorParsing py_error
  | Warning string
  | Success string
  | Toast string
  | OpenTab string

text \<open>
  The whole body is under \<open>try\<close>: whatever is raised is shown as an error and the result
  is \<open>None\<close>. A document that is not a dict raises TypeError at the first item
  assignment of \<open>apply_business_logic\<close>.
\<close>

definition parse_release_data ::
    "pycountry \<Rightarrow> collaborators \<Rightarrow> string \<Rightarrow> notice list \<times> dict option" where
  "parse_release_data pc co text =
     (case generate_content co text of
        Inl e \<Rightarrow> ([ErrorParsing e], None)
      | Inr response_text \<Rightarrow>
          (case json_loads co (clean_json_response response_text) of
             Inl e \<Rightarrow> ([ErrorParsing e], None)
           | Inr JOther \<Rightarrow> ([ErrorParsing TypeError], None)
           | Inr (JDict data) \<Rightarrow>
               (case apply_business_logic pc data of
                  Inl e \<Rightarrow> ([ErrorParsing e], None)
                | Inr data' \<Rightarrow> ([], Some data'))))"

text \<open>The script is the fixed template filled with eight values; the model keeps the
  values, in the order of the template.\<close>

type_synonym script = "string list"

record session_state =
  parsed_data :: dict
  generated_script :: "script option"

definition parse_data_button ::
    "pycountry \<Rightarrow> collaborators \<Rightarrow> string \<Rightarrow> session_state \<Rightarrow> session_state \<times> notice list" where
  "parse_data_button pc co raw_text st =
     (if raw_text = [] then (st, [Warning ''Please paste some text first.''])
      else
        (case parse_release_data pc co raw_text of
           (ns, None) \<Rightarrow> (st, ns)
         | (ns, Some parsed) \<Rightarrow>
             if parsed \<noteq> [] then (st\<lparr>parsed_data := parsed\<rparr>, ns @ [Success ''Parsing complete!''])
             else (st, ns)))"

section \<open>The review form\<close>

text \<open>The values the widgets of the form return in one run of the script: what the
  user has entered, or the seeded value where nothing was entered.\<close>

record review_form =
  f_artist :: string
  f_title :: string
  f_upc :: string
  f_isrc :: string
  f_label :: string
  f_release_date :: string
  f_country_input :: string
  f_description :: string
  f_genre :: string
  f_rtype :: string
  f_latin_audience :: string

text \<open>The value that seeds the ISRC input: \<open>None\<close> is shown as the empty text.\<close>

definition isrc_val :: "dict \<Rightarrow> string" where
  "isrc_val pd = (case dict_get pd ''isrc'' (PStr []) of PNone \<Rightarrow> [] | PStr s \<Rightarrow> s)"

definition isrc_check :: "string \<Rightarrow> bool \<times> notice list" where
  "isrc_check isrc =
     (if isrc = [] then (False, [Error ''ISRC is MISSING. Please enter it manually.''])
      else if \<not> validate_isrc (PStr isrc)
        then (False, [Error ''Invalid ISRC format. Must be 12 alphanumeric characters.''])
      else (True, []))"

definition portal_url :: string where
  "portal_url = ''https://labelportal.amazonmusic.com/s/project-flow-frontline''"

definition form_update :: "review_form \<Rightarrow> dict \<Rightarrow> dict" where
  "form_update w pd =
     foldl (\<lambda>d (k, v). dict_set d k (PStr v)) pd
       [(''primary_artist'', f_artist w), (''title'', f_title w), (''upc'', f_upc w),
        (''isrc'', f_isrc w), (''label'', f_label w), (''release_date'', f_release_date w),
        (''country_code'', f_country_input w), (''description'', f_description w),
        (''genre'', f_genre w), (''release_type'', f_rtype w),
        (''latin_audience'', f_latin_audience w)]"

definition js_script :: "review_form \<Rightarrow> script" where
  "js_script w =
     [f_artist w, f_title w, f_upc w, f_isrc w, f_release_date w, f_description w,
      f_label w, f_country_input w]"

text \<open>
  One run of the review section. The form is rendered only when the stored record is
  not empty. \<open>submit_button\<close> is the button as rendered: nothing when there is no form,
  otherwise its \<open>disabled\<close> flag. \<open>form_submit_button\<close> is the widget of the UI
  framework, a parameter: given the \<open>disabled\<close> flag it says whether the form was
  submitted in this run.
\<close>

record review_result =
  state_after :: session_state
  notices :: "notice list"
  submit_button :: "bool option"

definition review_section ::
    "(bool \<Rightarrow> bool) \<Rightarrow> review_form \<Rightarrow> session_state \<Rightarrow> review_result" where
  "review_section form_submit_button w st =
     (if parsed_data st = [] then \<lparr>state_after = st, notices = [], submit_button = None\<rparr>
      else
        (let (isrc_valid, errs) = isrc_check (f_isrc w);
             submitted = form_submit_button (\<not> isrc_valid)
         in if submitted
            then \<lparr>state_after = st\<lparr>parsed_data := form_update w (parsed_data st),
                                     generated_script := Some (js_script w)\<rparr>,
                  notices = errs @ [OpenTab portal_url,
                                    Toast ''Amazon Portal opened in a new tab!''],
                  submit_button = Some (\<not> isrc_valid)\<rparr>
            else \<lparr>state_after = st, notices = errs, submit_button = Some (\<not> isrc_valid)\<rparr>))"




section \<open>Properties of apply_business_logic\<close>

subsection \<open>What each block does to the fields\<close>

lemma map_of_dict_set: "map_of (dict_set d k v) k' = (if k' = k then Some v else map_of d k')"
  by (simp add: dict_set_def update_conv')

lemma map_of_apply_defaults:
  "map_of (apply_defaults d) k =
     (if k = ''latin_audience'' then Some (PStr ''Yes'')
      else if k = ''label'' then Some (PStr ''ONErpm'') else map_of d k)"
  by (simp add: apply_defaults_def map_of_dict_set)

lemma map_of_genre_mapping_other:
  "k \<noteq> ''genre'' \<Longrightarrow> map_of (genre_mapping d) k = map_of d k"
  by (simp add: genre_mapping_def Let_def map_of_dict_set)

lemma map_of_genre_mapping_genre:
  "map_of (genre_mapping d) ''genre'' =
     Some (case map_of genre_map (dict_get d ''genre'' (PStr [])) of
             Some g \<Rightarrow> g | None \<Rightarrow> dict_get d ''genre'' (PStr []))"
  by (simp add: genre_mapping_def Let_def map_of_dict_set)

lemma release_type_mapping_raises:
  "release_type_mapping d = Inl e \<longleftrightarrow> e = AttributeError \<and> map_of d ''release_type'' = Some PNone"
  by (auto simp: release_type_mapping_def dict_get_def Let_def split: pyval.splits option.splits)

lemma release_type_mapping_other:
  "release_type_mapping d = Inr d' \<Longrightarrow> k \<noteq> ''release_type'' \<Longrightarrow> map_of d' k = map_of d k"
  by (auto simp: release_type_mapping_def dict_get_def Let_def map_of_dict_set
      split: pyval.splits option.splits if_splits)

lemma country_fix_other:
  "k \<noteq> ''country_name'' \<Longrightarrow> k \<noteq> ''country_code'' \<Longrightarrow> map_of (country_fix pc d) k = map_of d k"
  by (auto simp: country_fix_def map_of_dict_set split: pyval.splits option.splits sum.splits list.splits)

lemma apply_business_logic_raises:
  "apply_business_logic pc d = Inl e \<longleftrightarrow> e = AttributeError \<and> map_of d ''release_type'' = Some PNone"
proof -
  let ?x = "genre_mapping (apply_defaults d)"
  have m: "map_of ?x ''release_type'' = map_of d ''release_type''"
    by (simp add: map_of_genre_mapping_other map_of_apply_defaults)
  show ?thesis
  proof (cases "release_type_mapping ?x")
    case (Inl a)
    then show ?thesis
      using release_type_mapping_raises [of ?x a] m by (auto simp: apply_business_logic_def)
  next
    case (Inr b)
    then have "map_of ?x ''release_type'' \<noteq> Some PNone"
      using release_type_mapping_raises [of ?x AttributeError] by auto
    with Inr m show ?thesis by (simp add: apply_business_logic_def)
  qed
qed

lemma apply_business_logic_returns:
  "map_of d ''release_type'' \<noteq> Some PNone \<Longrightarrow> \<exists>d'. apply_business_logic pc d = Inr d'"
  using apply_business_logic_raises [of pc d] by (cases "apply_business_logic pc d") auto

subsection \<open>Totality\<close>

text \<open>
  Claim C1 says that \<open>apply_business_logic\<close> never raises, in particular not when
  \<open>release_type\<close>, \<open>genre\<close> or \<open>country_code\<close> is null. The code raises on a null
  \<open>release_type\<close>: for the record holding only \<open>release_type = None\<close> the call ends in
  AttributeError, whatever the catalogue. (By \<open>apply_business_logic_raises\<close> this is the
  only way it raises: a null \<open>genre\<close> or \<open>country_code\<close> is harmless.)
\<close>

theorem apply_business_logic_null_release_type:
  "apply_business_logic pc [(''release_type'', PNone)] = Inl AttributeError"
  by (simp add: apply_business_logic_raises)

subsection \<open>The defaults\<close>

text \<open>
  Claim C5: whatever the record held before, the record returned by
  \<open>apply_business_logic\<close> has \<open>label\<close> equal to ONErpm and \<open>latin_audience\<close> equal to Yes.
\<close>

theorem apply_business_logic_defaults:
  "apply_business_logic pc d = Inr d' \<Longrightarrow>
     map_of d' ''label'' = Some (PStr ''ONErpm'') \<and> map_of d' ''latin_audience'' = Some (PStr ''Yes'')"
  by (auto simp: apply_business_logic_def country_fix_other release_type_mapping_other
      map_of_genre_mapping_other map_of_apply_defaults split: sum.splits)

theorem apply_business_logic_defaults_witness:
  "apply_business_logic sample_pycountry [(''label'', PStr ''X''), (''latin_audience'', PStr ''No'')]
     = Inr [(''label'', PStr ''ONErpm''), (''latin_audience'', PStr ''Yes''),
            (''genre'', PStr []), (''release_type'', PStr ''New Single'')]
   \<and> map_of [(''label'', PStr ''ONErpm''), (''latin_audience'', PStr ''Yes''),
              (''genre'', PStr []), (''release_type'', PStr ''New Single'')] ''label''
       = Some (PStr ''ONErpm'')
   \<and> map_of [(''label'', PStr ''ONErpm''), (''latin_audience'', PStr ''Yes''),
              (''genre'', PStr []), (''release_type'', PStr ''New Single'')] ''latin_audience''
       = Some (PStr ''Yes'')"
proof -
  have h: "apply_business_logic sample_pycountry
             [(''label'', PStr ''X''), (''latin_audience'', PStr ''No'')]
           = Inr [(''label'', PStr ''ONErpm''), (''latin_audience'', PStr ''Yes''),
                  (''genre'', PStr []), (''release_type'', PStr ''New Single'')]"
    by code_simp
  show ?thesis
    using h apply_business_logic_defaults [OF h] by simp
qed

subsection \<open>Release type\<close>

lemma release_type_mapping_field:
  assumes "dict_get d ''release_type'' (PStr []) = PStr s"
  shows "\<exists>d'. release_type_mapping d = Inr d' \<and>
           map_of d' ''release_type'' =
             Some (PStr (if str_contains ''single + video'' (py_lower (py_strip s)) then ''New Single''
                         else if str_contains ''album + video'' (py_lower (py_strip s)) then ''New Album''
                         else if str_contains ''ep + video'' (py_lower (py_strip s)) then ''New EP''
                         else if py_strip s = [] then ''New Single'' else s))"
proof (cases "map_of d ''release_type''")
  case None
  with assms have "s = []" by (simp add: dict_get_def)
  then have "py_strip s = []" by (simp add: py_strip_def)
  with assms show ?thesis
    by (simp add: release_type_mapping_def Let_def map_of_dict_set)
next
  case (Some v)
  with assms have "map_of d ''release_type'' = Some (PStr s)" by (simp add: dict_get_def)
  with assms show ?thesis
    by (simp add: release_type_mapping_def Let_def map_of_dict_set)
qed

lemma dict_get_stage:
  "dict_get (genre_mapping (apply_defaults d)) ''release_type'' dflt = dict_get d ''release_type'' dflt"
  by (simp add: dict_get_def map_of_genre_mapping_other map_of_apply_defaults)

lemma apply_business_logic_release_type:
  assumes "dict_get d ''release_type'' (PStr []) = PStr s"
  shows "result_field (apply_business_logic pc d) ''release_type'' =
           Some (PStr (if str_contains ''single + video'' (py_lower (py_strip s)) then ''New Single''
                       else if str_contains ''album + video'' (py_lower (py_strip s)) then ''New Album''
                       else if str_contains ''ep + video'' (py_lower (py_strip s)) then ''New EP''
                       else if py_strip s = [] then ''New Single'' else s))"
proof -
  let ?x = "genre_mapping (apply_defaults d)"
  have "dict_get ?x ''release_type'' (PStr []) = PStr s"
    using assms by (simp add: dict_get_stage)
  from release_type_mapping_field [OF this] obtain d' where
    d': "release_type_mapping ?x = Inr d'" and
    f: "map_of d' ''release_type'' =
          Some (PStr (if str_contains ''single + video'' (py_lower (py_strip s)) then ''New Single''
                      else if str_contains ''album + video'' (py_lower (py_strip s)) then ''New Album''
                      else if str_contains ''ep + video'' (py_lower (py_strip s)) then ''New EP''
                      else if py_strip s = [] then ''New Single'' else s))"
    by blast
  have "result_field (apply_business_logic pc d) ''release_type'' = map_of d' ''release_type''"
    using d' by (simp add: apply_business_logic_def country_fix_other)
  with f show ?thesis by simp
qed

text \<open>
  Claim C3 says that a release type matching none of the three substrings and not empty
  after trimming is stored trimmed, so that \<open>"  Remix  "\<close> becomes \<open>"Remix"\<close>. The
  code trims only the copy it compares: in that case it writes nothing, and the field
  keeps its spaces.
\<close>

theorem release_type_not_trimmed:
  "result_field (apply_business_logic sample_pycountry [(''release_type'', PStr ''  Remix  '')])
     ''release_type'' \<noteq> Some (PStr ''Remix'')"
  by code_simp

text \<open>
  Claim C3 as amended: for a string release type, the value is trimmed and lower-cased
  for the comparison only. The first of \<open>single + video\<close>, \<open>album + video\<close>,
  \<open>ep + video\<close> that occurs in it gives New Single, New Album, New EP; if none occurs
  and the trimmed value is empty the field becomes New Single; otherwise the field keeps
  its original value, neither lower-cased nor trimmed.
\<close>

theorem release_type_rule:
  "map_of d ''release_type'' = Some (PStr s) \<Longrightarrow>
     result_field (apply_business_logic pc d) ''release_type'' =
       Some (PStr (if str_contains ''single + video'' (py_lower (py_strip s)) then ''New Single''
                   else if str_contains ''album + video'' (py_lower (py_strip s)) then ''New Album''
                   else if str_contains ''ep + video'' (py_lower (py_strip s)) then ''New EP''
                   else if py_strip s = [] then ''New Single'' else s))"
  by (rule apply_business_logic_release_type) (simp add: dict_get_def)

theorem release_type_rule_witness:
  "map_of [(''release_type'', PStr ''  Remix  '')] ''release_type'' = Some (PStr ''  Remix  '')
   \<and> result_field (apply_business_logic sample_pycountry [(''release_type'', PStr ''  Remix  '')])
        ''release_type'' = Some (PStr ''  Remix  '')
   \<and> result_field (apply_business_logic sample_pycountry [(''release_type'', PStr ''Single + Video'')])
        ''release_type'' = Some (PStr ''New Single'')"
proof -
  have h1: "map_of [(''release_type'', PStr ''  Remix  '')] ''release_type'' = Some (PStr ''  Remix  '')"
    by simp
  have h2: "map_of [(''release_type'', PStr ''Single + Video'')] ''release_type''
              = Some (PStr ''Single + Video'')"
    by simp
  have e1: "\<not> str_contains ''single + video'' (py_lower (py_strip ''  Remix  ''))"
           "\<not> str_contains ''album + video'' (py_lower (py_strip ''  Remix  ''))"
           "\<not> str_contains ''ep + video'' (py_lower (py_strip ''  Remix  ''))"
           "py_strip ''  Remix  '' \<noteq> []"
           "str_contains ''single + video'' (py_lower (py_strip ''Single + Video''))"
    by code_simp+
  show ?thesis
    using h1 release_type_rule [OF h1, of sample_pycountry]
      release_type_rule [OF h2, of sample_pycountry] e1
    by simp
qed

text \<open>The examples of the specification.\<close>

lemma release_type_examples:
  "result_field (apply_business_logic pc [(''release_type'', PStr ''Single + Video'')]) ''release_type''
     = Some (PStr ''New Single'')"
  "result_field (apply_business_logic pc [(''release_type'', PStr [])]) ''release_type''
     = Some (PStr ''New Single'')"
  "result_field (apply_business_logic pc []) ''release_type'' = Some (PStr ''New Single'')"
  "result_field (apply_business_logic pc [(''release_type'', PStr ''Remix'')]) ''release_type''
     = Some (PStr ''Remix'')"
proof -
  have e: "str_contains ''single + video'' (py_lower (py_strip ''Single + Video''))"
          "\<not> str_contains ''single + video'' (py_lower (py_strip []))"
          "\<not> str_contains ''album + video'' (py_lower (py_strip []))"
          "\<not> str_contains ''ep + video'' (py_lower (py_strip []))"
          "py_strip [] = []"
          "\<not> str_contains ''single + video'' (py_lower (py_strip ''Remix''))"
          "\<not> str_contains ''album + video'' (py_lower (py_strip ''Remix''))"
          "\<not> str_contains ''ep + video'' (py_lower (py_strip ''Remix''))"
          "py_strip ''Remix'' \<noteq> []"
    by code_simp+
  show "result_field (apply_business_logic pc [(''release_type'', PStr ''Single + Video'')]) ''release_type''
     = Some (PStr ''New Single'')"
    using e by (subst apply_business_logic_release_type [where s = "''Single + Video''"])
      (simp_all add: dict_get_def)
  show "result_field (apply_business_logic pc [(''release_type'', PStr [])]) ''release_type''
     = Some (PStr ''New Single'')"
    using e by (subst apply_business_logic_release_type [where s = "[]"])
      (simp_all add: dict_get_def)
  show "result_field (apply_business_logic pc []) ''release_type'' = Some (PStr ''New Single'')"
    using e by (subst apply_business_logic_release_type [where s = "[]"])
      (simp_all add: dict_get_def)
  show "result_field (apply_business_logic pc [(''release_type'', PStr ''Remix'')]) ''release_type''
     = Some (PStr ''Remix'')"
    using e by (subst apply_business_logic_release_type [where s = "''Remix''"])
      (simp_all add: dict_get_def)
qed

section \<open>Properties of validate_isrc\<close>

text \<open>The function holds exactly for non-empty strings that, without hyphens and in
  upper case, are the twelve characters of the pattern, or those followed by one
  newline.\<close>

lemma validate_isrc_iff:
  "validate_isrc (PStr s) \<longleftrightarrow>
     s \<noteq> [] \<and> (isrc_shape (py_upper (remove_hyphens s))
              \<or> (\<exists>u. py_upper (remove_hyphens s) = u @ [CHR 0x0A] \<and> isrc_shape u))"
proof -
  let ?u = "py_upper (remove_hyphens s)"
  have a: "isrc_shape (take 12 ?u) \<and> drop 12 ?u = [] \<longleftrightarrow> isrc_shape ?u"
    by (auto simp: isrc_shape_def)
  have b: "isrc_shape (take 12 ?u) \<and> drop 12 ?u = [CHR 0x0A]
             \<longleftrightarrow> (\<exists>u. ?u = u @ [CHR 0x0A] \<and> isrc_shape u)"
  proof
    assume h: "isrc_shape (take 12 ?u) \<and> drop 12 ?u = [CHR 0x0A]"
    then have "?u = take 12 ?u @ [CHR 0x0A]"
      by (metis append_take_drop_id)
    with h show "\<exists>u. ?u = u @ [CHR 0x0A] \<and> isrc_shape u" by blast
  next
    assume "\<exists>u. ?u = u @ [CHR 0x0A] \<and> isrc_shape u"
    then obtain u where u: "?u = u @ [CHR 0x0A]" "isrc_shape u" by blast
    then have "length u = 12" by (simp add: isrc_shape_def)
    with u show "isrc_shape (take 12 ?u) \<and> drop 12 ?u = [CHR 0x0A]" by simp
  qed
  show ?thesis using a b by (auto simp: re_match_isrc_def)
qed

lemma validate_isrc_examples:
  "validate_isrc (PStr ''USRC17607839'')"
  "validate_isrc (PStr ''usrc17607839'')"
  "validate_isrc (PStr ''US-RC1-76-07839'')"
  "\<not> validate_isrc (PStr ''USRC1760783'')"
  "\<not> validate_isrc (PStr ''USRC176078399'')"
  "\<not> validate_isrc (PStr [])"
  "\<not> validate_isrc PNone"
  by code_simp+

text \<open>
  Claim C4 says that \<open>validate_isrc\<close> rejects every string with an extra character,
  a trailing newline included. A valid code followed by a newline is accepted: \<open>$\<close>
  in the pattern also matches before a final newline.
\<close>

theorem validate_isrc_trailing_newline:
  "validate_isrc (PStr (''USRC17607839'' @ [CHR 0x0A])) = True"
  by code_simp

section \<open>Properties of the country resolution\<close>

lemma country_fix_code:
  assumes "map_of d ''country_code'' = Some (PStr cc)" "cc \<noteq> []"
  shows "map_of (country_fix pc d) ''country_code'' =
           Some (PStr (if length cc = 2 then cc
                       else case search_fuzzy pc cc of Inr (c # cs) \<Rightarrow> alpha_2 c | _ \<Rightarrow> cc))"
  using assms
  by (auto simp: country_fix_def dict_get_def map_of_dict_set
      split: option.splits sum.splits list.splits)

lemma country_fix_name:
  assumes "map_of d ''country_code'' = Some (PStr cc)" "cc \<noteq> []"
  shows "map_of (country_fix pc d) ''country_name'' =
           (if length cc = 2 then
              Some (PStr (case countries_get pc (py_upper cc) of
                            Inr (Some c) \<Rightarrow> name c | _ \<Rightarrow> []))
            else case search_fuzzy pc cc of
                   Inr (c # cs) \<Rightarrow> Some (PStr (name c))
                 | Inr [] \<Rightarrow> map_of d ''country_name''
                 | Inl e \<Rightarrow> Some (PStr []))"
  using assms
  by (auto simp: country_fix_def get_country_name_def dict_get_def map_of_dict_set
      split: option.splits sum.splits list.splits)

lemma apply_business_logic_country_stage:
  assumes "map_of d ''release_type'' \<noteq> Some PNone"
  shows "\<exists>x. apply_business_logic pc d = Inr (country_fix pc x)
           \<and> map_of x ''country_code'' = map_of d ''country_code''
           \<and> map_of x ''country_name'' = map_of d ''country_name''"
proof -
  let ?g = "genre_mapping (apply_defaults d)"
  have m: "map_of ?g k = map_of d k" if "k \<in> {''country_code'', ''country_name'', ''release_type''}" for k
    using that by (auto simp: map_of_genre_mapping_other map_of_apply_defaults)
  obtain x where x: "release_type_mapping ?g = Inr x"
    using release_type_mapping_raises [of ?g] assms m [of "''release_type''"]
    by (cases "release_type_mapping ?g") auto
  have "map_of x ''country_code'' = map_of d ''country_code''"
       "map_of x ''country_name'' = map_of d ''country_name''"
    using release_type_mapping_other [OF x] m by auto
  with x show ?thesis by (auto simp: apply_business_logic_def)
qed

text \<open>
  Claim C2 says that when the input is not two characters long and the fuzzy search
  fails, both the derived name and the stored \<open>country_code\<close> end up empty. The code
  empties only the name: the stored code is still the text that was searched for.
\<close>

theorem fuzzy_failure_keeps_code:
  "result_field (apply_business_logic sample_pycountry [(''country_code'', PStr ''Atlantis'')])
     ''country_code'' \<noteq> Some (PStr [])"
  by code_simp

text \<open>
  Claim C2 as amended, for a non-empty country value \<open>cc\<close>. If \<open>cc\<close> has two characters
  the stored code stays \<open>cc\<close>, and the name is the catalogue's name for \<open>cc\<close> in upper case
  when the catalogue knows it and empty otherwise (also when the lookup raises). If
  \<open>cc\<close> has another length and the fuzzy search returns matches, the code and the name
  are those of the first match. If the search raises, the name is empty and the stored
  code stays \<open>cc\<close>. If the search returns no match without raising, neither field is
  written.
\<close>

theorem country_resolution:
  assumes "map_of d ''release_type'' \<noteq> Some PNone"
    and "map_of d ''country_code'' = Some (PStr cc)" and "cc \<noteq> []"
  shows "result_field (apply_business_logic pc d) ''country_code'' =
           Some (PStr (if length cc = 2 then cc
                       else case search_fuzzy pc cc of Inr (c # cs) \<Rightarrow> alpha_2 c | _ \<Rightarrow> cc))
       \<and> result_field (apply_business_logic pc d) ''country_name'' =
           (if length cc = 2 then
              Some (PStr (case countries_get pc (py_upper cc) of
                            Inr (Some c) \<Rightarrow> name c | _ \<Rightarrow> []))
            else case search_fuzzy pc cc of
                   Inr (c # cs) \<Rightarrow> Some (PStr (name c))
                 | Inr [] \<Rightarrow> map_of d ''country_name''
                 | Inl e \<Rightarrow> Some (PStr []))"
proof -
  obtain x where x: "apply_business_logic pc d = Inr (country_fix pc x)"
      "map_of x ''country_code'' = map_of d ''country_code''"
      "map_of x ''country_name'' = map_of d ''country_name''"
    using apply_business_logic_country_stage [OF assms(1)] by blast
  have c: "map_of x ''country_code'' = Some (PStr cc)" using x assms by simp
  show ?thesis
    using x country_fix_code [OF c assms(3), of pc] country_fix_name [OF c assms(3), of pc]
    by (simp split: sum.splits list.splits)
qed

theorem country_resolution_witness:
  "result_field (apply_business_logic sample_pycountry [(''country_code'', PStr ''Atlantis'')])
     ''country_code'' = Some (PStr ''Atlantis'')
   \<and> result_field (apply_business_logic sample_pycountry [(''country_code'', PStr ''Atlantis'')])
     ''country_name'' = Some (PStr [])
   \<and> result_field (apply_business_logic sample_pycountry [(''country_code'', PStr ''United States'')])
     ''country_code'' = Some (PStr ''US'')
   \<and> result_field (apply_business_logic sample_pycountry [(''country_code'', PStr ''United States'')])
     ''country_name'' = Some (PStr ''United States'')
   \<and> result_field (apply_business_logic sample_pycountry [(''country_code'', PStr ''US'')])
     ''country_name'' = Some (PStr ''United States'')
   \<and> result_field (apply_business_logic sample_pycountry [(''country_code'', PStr ''ZZ'')])
     ''country_code'' = Some (PStr ''ZZ'')
   \<and> result_field (apply_business_logic sample_pycountry [(''country_code'', PStr ''ZZ'')])
     ''country_name'' = Some (PStr [])"
proof -
  have r: "map_of [(''country_code'', PStr cc)] ''release_type'' \<noteq> Some PNone" for cc
    by simp
  have c: "map_of [(''country_code'', PStr cc)] ''country_code'' = Some (PStr cc)" for cc
    by simp
  have n: "''Atlantis'' \<noteq> []" "''United States'' \<noteq> []" "''US'' \<noteq> []" "''ZZ'' \<noteq> []"
    by simp_all
  have e: "search_fuzzy sample_pycountry ''Atlantis'' = Inl LookupError"
    "search_fuzzy sample_pycountry ''United States''
       = Inr [\<lparr>alpha_2 = ''US'', name = ''United States''\<rparr>]"
    "countries_get sample_pycountry (py_upper ''US'')
       = Inr (Some \<lparr>alpha_2 = ''US'', name = ''United States''\<rparr>)"
    "countries_get sample_pycountry (py_upper ''ZZ'') = Inr None"
    by code_simp+
  show ?thesis
    using country_resolution [OF r c n(1), of sample_pycountry]
      country_resolution [OF r c n(2), of sample_pycountry]
      country_resolution [OF r c n(3), of sample_pycountry]
      country_resolution [OF r c n(4), of sample_pycountry] e
    by simp
qed

text \<open>
  Claim C10: the lookup of a two-letter code is done on the upper-cased code, and the
  stored \<open>country_code\<close> keeps the casing it came with: whenever the catalogue knows the
  upper-cased code, the record returned has the original \<open>country_code\<close> and the
  catalogue's name, as for \<open>us\<close> and United States.
\<close>

theorem country_code_keeps_casing:
  assumes "map_of d ''release_type'' \<noteq> Some PNone"
    and "map_of d ''country_code'' = Some (PStr cc)" and "length cc = 2"
    and "countries_get pc (py_upper cc) = Inr (Some c)"
  shows "result_field (apply_business_logic pc d) ''country_code'' = Some (PStr cc)
       \<and> result_field (apply_business_logic pc d) ''country_name'' = Some (PStr (name c))"
proof -
  obtain x where x: "apply_business_logic pc d = Inr (country_fix pc x)"
      "map_of x ''country_code'' = map_of d ''country_code''"
    using apply_business_logic_country_stage [OF assms(1)] by blast
  have c: "map_of x ''country_code'' = Some (PStr cc)" using x assms by simp
  have n: "cc \<noteq> []" using assms(3) by auto
  show ?thesis
    using x assms(3,4) country_fix_code [OF c n, of pc] country_fix_name [OF c n, of pc]
    by simp
qed

theorem country_code_keeps_casing_witness:
  "map_of [(''country_code'', PStr ''us'')] ''release_type'' \<noteq> Some PNone
   \<and> map_of [(''country_code'', PStr ''us'')] ''country_code'' = Some (PStr ''us'')
   \<and> length ''us'' = 2
   \<and> countries_get sample_pycountry (py_upper ''us'')
         = Inr (Some \<lparr>alpha_2 = ''US'', name = ''United States''\<rparr>)
   \<and> result_field (apply_business_logic sample_pycountry [(''country_code'', PStr ''us'')])
         ''country_code'' = Some (PStr ''us'')
   \<and> result_field (apply_business_logic sample_pycountry [(''country_code'', PStr ''us'')])
         ''country_name'' = Some (PStr ''United States'')"
proof -
  have h1: "map_of [(''country_code'', PStr ''us'')] ''release_type'' \<noteq> Some PNone" by simp
  have h2: "map_of [(''country_code'', PStr ''us'')] ''country_code'' = Some (PStr ''us'')" by simp
  have h3: "length ''us'' = 2" by simp
  have h4: "countries_get sample_pycountry (py_upper ''us'')
              = Inr (Some \<lparr>alpha_2 = ''US'', name = ''United States''\<rparr>)"
    by code_simp
  show ?thesis
    using h1 h2 h3 h4 country_code_keeps_casing [OF h1 h2 h3 h4] by simp
qed

section \<open>Properties of clean_json_response\<close>

subsection \<open>Stripping and deleting\<close>

lemma str_contains_sublist: "str_contains p s \<longleftrightarrow> sublist p s"
  by (induction s) (auto simp: sublist_Cons_right)

lemma py_strip_sublist: "sublist (py_strip s) s"
proof -
  let ?t = "dropWhile py_isspace s"
  have "suffix ?t s" by (rule suffix_dropWhile)
  moreover have "prefix (py_strip s) ?t"
  proof -
    have "suffix (dropWhile py_isspace (rev ?t)) (rev ?t)" by (rule suffix_dropWhile)
    then show ?thesis
      unfolding py_strip_def by (metis suffix_to_prefix rev_rev_ident)
  qed
  ultimately show ?thesis
    by (meson prefix_imp_sublist suffix_imp_sublist sublist_order.order.trans)
qed

lemma py_strip_idem: "py_strip (py_strip s) = py_strip s"
proof -
  let ?t = "dropWhile py_isspace s"
  let ?u = "dropWhile py_isspace (rev ?t)"
  have u: "?u = [] \<or> \<not> py_isspace (hd ?u)" by (metis hd_dropWhile)
  have t: "?t = [] \<or> \<not> py_isspace (hd ?t)" by (metis hd_dropWhile)
  show ?thesis
  proof (cases "?u = []")
    case True
    then have "py_strip s = []" by (simp add: py_strip_def)
    moreover have "py_strip [] = []" by (simp add: py_strip_def)
    ultimately show ?thesis by simp
  next
    case False
    have nt: "?t \<noteq> []"
    proof
      assume "?t = []"
      then have "?u = []" by (simp only: rev.simps dropWhile.simps)
      with False show False by contradiction
    qed
    have "suffix ?u (rev ?t)" by (rule suffix_dropWhile)
    then obtain a where a: "rev ?t = a @ ?u" by (auto simp: suffix_def)
    then have "?t = rev ?u @ rev a" by (metis rev_append rev_rev_ident)
    with False have "hd (rev ?u) = hd ?t" by (metis hd_append2 rev_is_Nil_conv)
    moreover from t nt have "\<not> py_isspace (hd ?t)" by blast
    ultimately have "\<not> py_isspace (hd (rev ?u))" by metis
    then have 1: "dropWhile py_isspace (rev ?u) = rev ?u"
      using False by (cases "rev ?u") auto
    have 2: "dropWhile py_isspace ?u = ?u"
      using u False by (cases ?u) auto
    show ?thesis
      unfolding py_strip_def using 1 2 by simp
  qed
qed

lemma re_sub_delete_subseq: "subseq (re_sub_delete p s) s"
proof (induction p s rule: re_sub_delete.induct)
  case (1 p)
  then show ?case by simp
next
  case (2 p x xs)
  show ?case
  proof (cases "p \<noteq> [] \<and> prefix p (x # xs)")
    case True
    then have "subseq (re_sub_delete p (drop (length p) (x # xs))) (drop (length p) (x # xs))"
      using 2 by simp
    moreover have "subseq (drop (length p) (x # xs)) (x # xs)"
      by (metis suffix_drop suffix_imp_subseq)
    ultimately have "subseq (re_sub_delete p (drop (length p) (x # xs))) (x # xs)"
      by (rule subseq_order.trans)
    with True show ?thesis by (simp del: drop.simps)
  next
    case False
    then have "subseq (re_sub_delete p xs) xs" using 2 by simp
    with False show ?thesis by auto
  qed
qed

subsection \<open>No fence is left\<close>

text \<open>Deleting the three backticks from the left leaves at most two of each run of
  backticks, and the runs stay apart, so no occurrence is left or newly formed.\<close>

lemma fence_survivor:
  assumes "\<not> prefix ''``'' xs"
  shows "\<not> prefix ''``'' (re_sub_delete ''```'' xs)"
proof (cases xs)
  case Nil
  then show ?thesis by simp
next
  case (Cons c ys)
  note xs = Cons
  show ?thesis
  proof (cases ys)
    case Nil
    with xs show ?thesis by simp
  next
    case (Cons e zs)
    with xs assms have ne: "\<not> (c = CHR ''`'' \<and> e = CHR ''`'')" by auto
    show ?thesis
    proof (cases "c = CHR ''`''")
      case True
      with ne have "e \<noteq> CHR ''`''" by simp
      with True xs Cons show ?thesis by simp
    next
      case False
      with xs Cons show ?thesis by simp
    qed
  qed
qed

lemma re_sub_delete_fence_free_aux:
  "p = ''```'' \<Longrightarrow> \<not> sublist p (re_sub_delete p s)"
proof (induction p s rule: re_sub_delete.induct)
  case (1 p)
  then show ?case by simp
next
  case (2 p x xs)
  note p = \<open>p = ''```''\<close>
  show ?case
  proof (cases "prefix p (x # xs)")
    case True
    have ne: "p \<noteq> []" using p by simp
    have "re_sub_delete p (x # xs) = re_sub_delete p (drop (length p) (x # xs))"
      using True ne by (metis re_sub_delete.simps(2))
    moreover have "\<not> sublist p (re_sub_delete p (drop (length p) (x # xs)))"
      using "2.IH"(1) True ne p by blast
    ultimately show ?thesis by metis
  next
    case False
    then have ih: "\<not> sublist p (re_sub_delete p xs)" using "2.IH"(2) p by blast
    have r: "re_sub_delete p (x # xs) = x # re_sub_delete p xs"
      using False by (metis re_sub_delete.simps(2))
    have "\<not> prefix p (x # re_sub_delete p xs)"
    proof
      assume a: "prefix p (x # re_sub_delete p xs)"
      have a': "prefix ''```'' (x # re_sub_delete ''```'' xs)"
        using a unfolding p .
      from a' have "CHR ''`'' = x \<and> prefix ''``'' (re_sub_delete ''```'' xs)"
        by (rule Cons_prefix_Cons [THEN iffD1])
      then have x: "x = CHR ''`''" and q: "prefix ''``'' (re_sub_delete ''```'' xs)"
        by blast+
      from q have "prefix ''``'' xs" using fence_survivor by blast
      with x have "prefix ''```'' (x # xs)" by simp
      then have "prefix p (x # xs)" unfolding p .
      with False show False by simp
    qed
    with ih r show ?thesis by (simp add: sublist_Cons_right)
  qed
qed

lemma re_sub_delete_fence_free: "\<not> sublist ''```'' (re_sub_delete ''```'' s)"
  using re_sub_delete_fence_free_aux [of "''```''" s] by simp

lemma clean_json_response_sublist:
  "sublist (clean_json_response s) (re_sub_delete ''```'' (re_sub_delete ''```json'' s))"
  by (simp add: clean_json_response_def py_strip_sublist)

subsection \<open>The function against the relation\<close>

text \<open>\<open>re_sub_delete\<close> computes the one text that \<open>all_deleted\<close> relates to its input.\<close>

lemma re_sub_delete_no_occurrence:
  "\<not> sublist p s \<Longrightarrow> re_sub_delete p s = s"
proof (induction s)
  case Nil
  then show ?case by simp
next
  case (Cons x xs)
  then have "\<not> prefix p (x # xs)" and "\<not> sublist p xs"
    by (simp_all add: sublist_Cons_right)
  with Cons.IH show ?case by simp
qed

lemma prefix_before_first:
  assumes "prefix p (w @ p @ v)"
  shows "prefix p (w @ butlast p) \<or> w = []"
proof (cases "w = []")
  case True
  then show ?thesis by simp
next
  case False
  have p: "p = take (length p) (w @ p @ v)"
    using assms by (metis append_eq_conv_conj prefix_def)
  have l: "length p \<le> length (w @ butlast p)"
    using False by (cases w) auto
  have "take (length p) (w @ p @ v) = take (length p) (w @ butlast p)"
  proof (cases "p = []")
    case True
    then show ?thesis by simp
  next
    case False
    then have "p = butlast p @ [last p]" by simp
    then have "w @ p @ v = (w @ butlast p) @ ([last p] @ v)"
      by (metis append.assoc)
    then show ?thesis using l by (metis append_eq_conv_conj take_append take_all_iff diff_is_0_eq' take_0 append_Nil2 le_refl order.trans)
  qed
  with p have "p = take (length p) (w @ butlast p)" by simp
  then have "prefix p (w @ butlast p)" by (metis take_is_prefix)
  then show ?thesis by simp
qed

lemma re_sub_delete_first:
  assumes "p \<noteq> []" and "\<not> sublist p (u @ butlast p)"
  shows "re_sub_delete p (u @ p @ v) = u @ re_sub_delete p v"
  using assms(2)
proof (induction u)
  case Nil
  obtain x xs where pv: "p @ v = x # xs" using assms(1) by (cases p) auto
  have "prefix p (x # xs)" using pv by (metis prefixI)
  then have "re_sub_delete p (x # xs) = re_sub_delete p (drop (length p) (x # xs))"
    using assms(1) by (metis re_sub_delete.simps(2))
  also have "drop (length p) (x # xs) = v" using pv by (metis append_eq_conv_conj)
  finally show ?case using pv by simp
next
  case (Cons x u)
  from Cons.prems have np: "\<not> prefix p (x # u @ butlast p)" and ns: "\<not> sublist p (u @ butlast p)"
    by (simp_all add: sublist_Cons_right)
  have "\<not> prefix p (x # u @ p @ v)"
  proof
    assume "prefix p (x # u @ p @ v)"
    then have "prefix p ((x # u) @ p @ v)" by simp
    from prefix_before_first [OF this] have "prefix p ((x # u) @ butlast p)" by simp
    with np show False by simp
  qed
  then have "re_sub_delete p (x # u @ p @ v) = x # re_sub_delete p (u @ p @ v)"
    by (metis re_sub_delete.simps(2))
  with Cons.IH [OF ns] show ?case by simp
qed

lemma all_deleted_unique:
  assumes "all_deleted p s t" and "p \<noteq> []"
  shows "t = re_sub_delete p s"
  using assms
proof (induction rule: all_deleted.induct)
  case (none s)
  then show ?case by (simp add: re_sub_delete_no_occurrence)
next
  case (first u v t)
  then show ?case by (simp add: re_sub_delete_first)
qed

lemma all_deleted_Cons:
  assumes "all_deleted p xs t" and "\<not> prefix p (x # xs)"
  shows "all_deleted p (x # xs) (x # t)"
  using assms
proof (cases rule: all_deleted.cases)
  case none
  with assms(2) have "\<not> sublist p (x # xs)" by (simp add: sublist_Cons_right)
  with none show ?thesis by (metis all_deleted.none)
next
  case (first u v t')
  have "\<not> prefix p (x # u @ butlast p)"
  proof
    assume a: "prefix p (x # u @ butlast p)"
    have "prefix (x # u @ butlast p) (x # u @ p @ v)"
      by (cases "p = []") (auto simp: prefix_def intro: exI [of _ "last p # v"])
    with a have "prefix p (x # u @ p @ v)" by (rule prefix_order.trans)
    with assms(2) first show False by simp
  qed
  with first have "\<not> sublist p ((x # u) @ butlast p)" by (simp add: sublist_Cons_right)
  from all_deleted.first [OF this first(4)] first show ?thesis by simp
qed

lemma all_deleted_re_sub_delete:
  "p \<noteq> [] \<Longrightarrow> all_deleted p s (re_sub_delete p s)"
proof (induction p s rule: re_sub_delete.induct)
  case (1 p)
  have "\<not> sublist p []" using 1 by simp
  then show ?case by (metis all_deleted.none re_sub_delete.simps(1))
next
  case (2 p x xs)
  show ?case
  proof (cases "prefix p (x # xs)")
    case True
    then obtain v where v: "x # xs = p @ v" by (auto simp: prefix_def)
    then have d: "drop (length p) (x # xs) = v" by (metis append_eq_conv_conj)
    have r: "re_sub_delete p (x # xs) = re_sub_delete p v"
      using True 2(3) d by (metis re_sub_delete.simps(2))
    have ih: "all_deleted p v (re_sub_delete p v)"
      using "2.IH"(1) True 2(3) d by metis
    have "\<not> sublist p ([] @ butlast p)"
    proof
      assume "sublist p ([] @ butlast p)"
      then have "length p \<le> length (butlast p)" by (metis sublist_length_le append_Nil)
      with 2(3) show False by (cases p rule: rev_cases) auto
    qed
    from all_deleted.first [OF this ih] have "all_deleted p (p @ v) (re_sub_delete p v)" by simp
    with v r show ?thesis by simp
  next
    case False
    then have r: "re_sub_delete p (x # xs) = x # re_sub_delete p xs"
      by (metis re_sub_delete.simps(2))
    have "all_deleted p xs (re_sub_delete p xs)"
      using "2.IH"(2) False 2(3) by blast
    from all_deleted_Cons [OF this False] r show ?thesis by simp
  qed
qed

text \<open>
  Claim C9: \<open>clean_json_response\<close> deletes every occurrence of the opening fence with
  its language tag, then every occurrence of the bare fence, wherever they stand, and
  strips the whitespace around what is left, and it does nothing else: its result is
  the stripped text that the two deletions of \<open>all_deleted\<close> determine. So the result
  holds no fence at all, has no whitespace at either end, and is what is left of the
  input after deletions only; a fence inside a JSON string value is deleted like any
  other, which changes the payload.
\<close>

theorem clean_json_response_removes_fences:
  "(\<exists>t1 t2. all_deleted ''```json'' s t1 \<and> all_deleted ''```'' t1 t2
       \<and> clean_json_response s = py_strip t2)
   \<and> (\<forall>t1 t2. all_deleted ''```json'' s t1 \<longrightarrow> all_deleted ''```'' t1 t2
       \<longrightarrow> clean_json_response s = py_strip t2)
   \<and> \<not> str_contains ''```'' (clean_json_response s)
   \<and> \<not> str_contains ''```json'' (clean_json_response s)
   \<and> py_strip (clean_json_response s) = clean_json_response s
   \<and> subseq (clean_json_response s) s
   \<and> clean_json_response (''{'' @ [CHR 0x22] @ ''description'' @ [CHR 0x22] @ '': ''
          @ [CHR 0x22] @ ''use ```code``` here'' @ [CHR 0x22] @ ''}'')
       = ''{'' @ [CHR 0x22] @ ''description'' @ [CHR 0x22] @ '': ''
          @ [CHR 0x22] @ ''use code here'' @ [CHR 0x22] @ ''}''"
proof -
  let ?t1 = "re_sub_delete ''```json'' s"
  let ?r = "re_sub_delete ''```'' ?t1"
  have c: "clean_json_response s = py_strip ?r"
    by (simp add: clean_json_response_def)
  have ex: "\<exists>t1 t2. all_deleted ''```json'' s t1 \<and> all_deleted ''```'' t1 t2
              \<and> clean_json_response s = py_strip t2"
  proof -
    have "all_deleted ''```json'' s ?t1" by (rule all_deleted_re_sub_delete) simp
    moreover have "all_deleted ''```'' ?t1 ?r" by (rule all_deleted_re_sub_delete) simp
    ultimately show ?thesis using c by blast
  qed
  have un: "\<forall>t1 t2. all_deleted ''```json'' s t1 \<longrightarrow> all_deleted ''```'' t1 t2
              \<longrightarrow> clean_json_response s = py_strip t2"
  proof (intro allI impI)
    fix t1 t2
    assume a: "all_deleted ''```json'' s t1" and b: "all_deleted ''```'' t1 t2"
    have "t1 = ?t1" using a by (rule all_deleted_unique) simp
    moreover have "t2 = re_sub_delete ''```'' t1" using b by (rule all_deleted_unique) simp
    ultimately show "clean_json_response s = py_strip t2" using c by simp
  qed
  have f: "\<not> sublist ''```'' (clean_json_response s)"
  proof
    assume "sublist ''```'' (clean_json_response s)"
    then have "sublist ''```'' ?r"
      using clean_json_response_sublist [of s] by (rule sublist_order.order.trans)
    then show False using re_sub_delete_fence_free by blast
  qed
  have j: "\<not> sublist ''```json'' (clean_json_response s)"
  proof
    assume a: "sublist ''```json'' (clean_json_response s)"
    have "prefix ''```'' ''```json''" by simp
    then have "sublist ''```'' ''```json''" by (rule prefix_imp_sublist)
    then have "sublist ''```'' (clean_json_response s)"
      using a by (rule sublist_order.order.trans)
    with f show False by contradiction
  qed
  have i: "py_strip (clean_json_response s) = clean_json_response s"
    by (simp add: clean_json_response_def py_strip_idem)
  have q: "subseq (clean_json_response s) s"
  proof -
    have "subseq (clean_json_response s) ?r"
      using clean_json_response_sublist by (rule sublist_imp_subseq)
    also have "subseq ?r ?t1" by (rule re_sub_delete_subseq)
    also have "subseq ?t1 s" by (rule re_sub_delete_subseq)
    finally show ?thesis .
  qed
  have e: "clean_json_response (''{'' @ [CHR 0x22] @ ''description'' @ [CHR 0x22] @ '': ''
          @ [CHR 0x22] @ ''use ```code``` here'' @ [CHR 0x22] @ ''}'')
       = ''{'' @ [CHR 0x22] @ ''description'' @ [CHR 0x22] @ '': ''
          @ [CHR 0x22] @ ''use code here'' @ [CHR 0x22] @ ''}''"
    by code_simp
  from ex un f j i q e show ?thesis
    unfolding str_contains_sublist by (intro conjI)
qed

theorem clean_json_response_removes_fences_witness:
  "all_deleted ''```json'' ''```json {} ```'' '' {} ```''
   \<and> all_deleted ''```'' '' {} ```'' '' {} ''
   \<and> clean_json_response ''```json {} ```'' = ''{}''"
proof -
  have n: "\<not> str_contains ''```json'' ([] @ butlast ''```json'')"
          "\<not> str_contains ''```json'' '' {} ```''"
          "\<not> str_contains ''```'' ('' {} '' @ butlast ''```'')"
          "\<not> str_contains ''```'' []"
    by code_simp+
  have "all_deleted ''```json'' '' {} ```'' '' {} ```''"
    using n(2) unfolding str_contains_sublist by (rule all_deleted.none)
  from all_deleted.first [OF n(1) [unfolded str_contains_sublist] this]
  have a: "all_deleted ''```json'' ''```json {} ```'' '' {} ```''" by simp
  have "all_deleted ''```'' [] []"
    using n(4) unfolding str_contains_sublist by (rule all_deleted.none)
  from all_deleted.first [OF n(3) [unfolded str_contains_sublist] this]
  have b: "all_deleted ''```'' '' {} ```'' '' {} ''" by simp
  have s: "py_strip '' {} '' = ''{}''" by code_simp
  from clean_json_response_removes_fences [of "''```json {} ```''"]
  have "all_deleted ''```json'' ''```json {} ```'' '' {} ```'' \<longrightarrow>
        all_deleted ''```'' '' {} ```'' '' {} '' \<longrightarrow>
        clean_json_response ''```json {} ```'' = py_strip '' {} ''"
    by blast
  with a b s show ?thesis by simp
qed

lemma clean_json_response_examples:
  "clean_json_response (''```json'' @ [CHR 0x0A] @ ''{}'' @ [CHR 0x0A] @ ''```'' @ [CHR 0x0A]) = ''{}''"
  "clean_json_response ''  {}  '' = ''{}''"
  "clean_json_response ''`````json`a'' = ''a''"
  by code_simp+

section \<open>Properties of the extraction\<close>

text \<open>
  Claim C7: when the collaborator call fails, or its cleaned response is not JSON, the
  extraction shows the error and returns nothing, whatever the catalogue (nothing is
  normalised), and the Parse Data button leaves the session state as it was.
\<close>

theorem parse_failure_keeps_record:
  assumes "raw_text \<noteq> []"
    and "generate_content co raw_text = Inl e
         \<or> (\<exists>resp. generate_content co raw_text = Inr resp
                  \<and> json_loads co (clean_json_response resp) = Inl e)"
  shows "parse_release_data pc co raw_text = ([ErrorParsing e], None)
       \<and> parse_data_button pc co raw_text st = (st, [ErrorParsing e])"
proof -
  have "parse_release_data pc co raw_text = ([ErrorParsing e], None)"
    using assms(2) by (auto simp: parse_release_data_def)
  then show ?thesis
    using assms(1) by (simp add: parse_data_button_def)
qed

theorem parse_failure_keeps_record_witness:
  "''some pasted text'' \<noteq> []
   \<and> generate_content
        \<lparr>generate_content = (\<lambda>t. Inr ''```json not a document ```''),
         json_loads = (\<lambda>t. Inl JSONDecodeError)\<rparr> ''some pasted text''
       = Inr ''```json not a document ```''
   \<and> json_loads
        \<lparr>generate_content = (\<lambda>t. Inr ''```json not a document ```''),
         json_loads = (\<lambda>t. Inl JSONDecodeError)\<rparr>
        (clean_json_response ''```json not a document ```'') = Inl JSONDecodeError
   \<and> parse_data_button sample_pycountry
        \<lparr>generate_content = (\<lambda>t. Inr ''```json not a document ```''),
         json_loads = (\<lambda>t. Inl JSONDecodeError)\<rparr> ''some pasted text''
        \<lparr>parsed_data = [(''title'', PStr ''Old'')], generated_script = None\<rparr>
       = (\<lparr>parsed_data = [(''title'', PStr ''Old'')], generated_script = None\<rparr>,
          [ErrorParsing JSONDecodeError])"
proof -
  let ?co = "\<lparr>generate_content = (\<lambda>t. Inr ''```json not a document ```''),
               json_loads = (\<lambda>t. Inl JSONDecodeError)\<rparr>"
  have h1: "''some pasted text'' \<noteq> []" by simp
  have h2: "generate_content ?co ''some pasted text'' = Inl JSONDecodeError
            \<or> (\<exists>resp. generate_content ?co ''some pasted text'' = Inr resp
                  \<and> json_loads ?co (clean_json_response resp) = Inl JSONDecodeError)"
    by simp
  show ?thesis
    using parse_failure_keeps_record [OF h1 h2, of sample_pycountry
        "\<lparr>parsed_data = [(''title'', PStr ''Old'')], generated_script = None\<rparr>"]
    by simp
qed

text \<open>Conversely, the stored record changes only after a response was decoded.\<close>

lemma stored_record_replaced_only_after_decoding:
  assumes "parsed_data (fst (parse_data_button pc co raw_text st)) \<noteq> parsed_data st"
  shows "\<exists>resp data. generate_content co raw_text = Inr resp
           \<and> json_loads co (clean_json_response resp) = Inr (JDict data)"
  using assms
  by (auto simp: parse_data_button_def parse_release_data_def
      split: if_splits sum.splits json_doc.splits prod.splits option.splits)

section \<open>Properties of the review form\<close>

lemma isrc_check_fst:
  "fst (isrc_check isrc) \<longleftrightarrow> isrc \<noteq> [] \<and> validate_isrc (PStr isrc)"
  by (simp add: isrc_check_def)

lemma review_section_outcome:
  "submit_button (review_section form_submit_button w st) =
     (if parsed_data st = [] then None
      else Some (\<not> (f_isrc w \<noteq> [] \<and> validate_isrc (PStr (f_isrc w)))))"
  "state_after (review_section form_submit_button w st) =
     (if parsed_data st \<noteq> []
         \<and> form_submit_button (\<not> (f_isrc w \<noteq> [] \<and> validate_isrc (PStr (f_isrc w))))
      then st\<lparr>parsed_data := form_update w (parsed_data st),
              generated_script := Some (js_script w)\<rparr>
      else st)"
  "OpenTab portal_url \<in> set (notices (review_section form_submit_button w st)) \<longleftrightarrow>
     parsed_data st \<noteq> []
     \<and> form_submit_button (\<not> (f_isrc w \<noteq> [] \<and> validate_isrc (PStr (f_isrc w))))"
proof -
  obtain v errs where c: "isrc_check (f_isrc w) = (v, errs)" by (cases "isrc_check (f_isrc w)")
  then have v: "v \<longleftrightarrow> f_isrc w \<noteq> [] \<and> validate_isrc (PStr (f_isrc w))"
    using isrc_check_fst [of "f_isrc w"] by simp
  have e: "OpenTab portal_url \<notin> set errs"
    using c by (auto simp: isrc_check_def split: if_splits)
  show "submit_button (review_section form_submit_button w st) =
     (if parsed_data st = [] then None
      else Some (\<not> (f_isrc w \<noteq> [] \<and> validate_isrc (PStr (f_isrc w)))))"
    using c v by (simp add: review_section_def Let_def)
  show "state_after (review_section form_submit_button w st) =
     (if parsed_data st \<noteq> []
         \<and> form_submit_button (\<not> (f_isrc w \<noteq> [] \<and> validate_isrc (PStr (f_isrc w))))
      then st\<lparr>parsed_data := form_update w (parsed_data st),
              generated_script := Some (js_script w)\<rparr>
      else st)"
    using c v by (simp add: review_section_def Let_def)
  show "OpenTab portal_url \<in> set (notices (review_section form_submit_button w st)) \<longleftrightarrow>
     parsed_data st \<noteq> []
     \<and> form_submit_button (\<not> (f_isrc w \<noteq> [] \<and> validate_isrc (PStr (f_isrc w))))"
    using c v e by (simp add: review_section_def Let_def)
qed



text \<open>So the generation is kept from an empty or invalid ISRC exactly as far as a
  button rendered disabled reports no submission.\<close>

lemma no_generation_behind_a_silent_button:
  assumes "\<not> form_submit_button True"
    and "\<not> (f_isrc w \<noteq> [] \<and> validate_isrc (PStr (f_isrc w)))"
  shows "state_after (review_section form_submit_button w st) = st"
    and "OpenTab portal_url \<notin> set (notices (review_section form_submit_button w st))"
  using assms review_section_outcome [of form_submit_button w st] by auto

text \<open>When the button does report a submission, the form is stored and the script is
  generated from it.\<close>

lemma review_submission_stores_form:
  assumes "parsed_data st \<noteq> []" and "form_submit_button (\<not> fst (isrc_check (f_isrc w)))"
  shows "state_after (review_section form_submit_button w st)
           = st\<lparr>parsed_data := form_update w (parsed_data st), generated_script := Some (js_script w)\<rparr>"
  using assms by (cases "isrc_check (f_isrc w)") (simp add: review_section_def Let_def)

section \<open>Idempotence\<close>

text \<open>No value of the genre table is a key of it, and none of the three release types
  written contains one of the substrings tested.\<close>

lemma genre_map_stable:
  "map_of genre_map (case map_of genre_map g of Some h \<Rightarrow> h | None \<Rightarrow> g)
     = (case map_of genre_map g of Some h \<Rightarrow> None | None \<Rightarrow> None)"
  by (auto simp: genre_map_def split: option.splits)

lemma genre_mapped_twice:
  "(case map_of genre_map (case map_of genre_map g of Some h \<Rightarrow> h | None \<Rightarrow> g) of
      Some h \<Rightarrow> h | None \<Rightarrow> (case map_of genre_map g of Some h \<Rightarrow> h | None \<Rightarrow> g))
     = (case map_of genre_map g of Some h \<Rightarrow> h | None \<Rightarrow> g)"
  by (simp add: genre_map_stable split: option.splits)

lemma new_values_stable:
  "\<not> str_contains ''single + video'' (py_lower (py_strip ''New Single''))"
  "\<not> str_contains ''album + video'' (py_lower (py_strip ''New Single''))"
  "\<not> str_contains ''ep + video'' (py_lower (py_strip ''New Single''))"
  "py_strip ''New Single'' \<noteq> []"
  "\<not> str_contains ''single + video'' (py_lower (py_strip ''New Album''))"
  "\<not> str_contains ''album + video'' (py_lower (py_strip ''New Album''))"
  "\<not> str_contains ''ep + video'' (py_lower (py_strip ''New Album''))"
  "py_strip ''New Album'' \<noteq> []"
  "\<not> str_contains ''single + video'' (py_lower (py_strip ''New EP''))"
  "\<not> str_contains ''album + video'' (py_lower (py_strip ''New EP''))"
  "\<not> str_contains ''ep + video'' (py_lower (py_strip ''New EP''))"
  "py_strip ''New EP'' \<noteq> []"
  by code_simp+

lemma apply_business_logic_genre:
  assumes "apply_business_logic pc d = Inr d'"
  shows "map_of d' ''genre'' =
           Some (case map_of genre_map (dict_get d ''genre'' (PStr [])) of
                   Some g \<Rightarrow> g | None \<Rightarrow> dict_get d ''genre'' (PStr []))"
proof -
  let ?a = "apply_defaults d"
  obtain x where x: "release_type_mapping (genre_mapping ?a) = Inr x" and d': "d' = country_fix pc x"
    using assms by (auto simp: apply_business_logic_def split: sum.splits)
  have "map_of d' ''genre'' = map_of (genre_mapping ?a) ''genre''"
    using release_type_mapping_other [OF x, of "''genre''"] d' by (simp add: country_fix_other)
  moreover have "dict_get ?a ''genre'' (PStr []) = dict_get d ''genre'' (PStr [])"
    by (simp add: dict_get_def map_of_apply_defaults)
  ultimately show ?thesis
    by (simp add: map_of_genre_mapping_genre split: option.splits)
qed

lemma apply_business_logic_fixed_fields:
  assumes "apply_business_logic pc d = Inr d'"
  shows "map_of d' ''label'' = Some (PStr ''ONErpm'')"
    and "map_of d' ''latin_audience'' = Some (PStr ''Yes'')"
  using assms
  by (auto simp: apply_business_logic_def country_fix_other release_type_mapping_other
      map_of_genre_mapping_other map_of_apply_defaults split: sum.splits)

text \<open>
  Claim C6: \<open>apply_business_logic\<close> is idempotent on \<open>genre\<close>, \<open>release_type\<close>, \<open>label\<close>
  and \<open>latin_audience\<close>: on a record it has returned it returns again, with the same
  values in these four fields.
\<close>

theorem apply_business_logic_idempotent:
  assumes "apply_business_logic pc d = Inr d1"
  shows "\<exists>d2. apply_business_logic pc d1 = Inr d2
           \<and> map_of d2 ''genre'' = map_of d1 ''genre''
           \<and> map_of d2 ''release_type'' = map_of d1 ''release_type''
           \<and> map_of d2 ''label'' = map_of d1 ''label''
           \<and> map_of d2 ''latin_audience'' = map_of d1 ''latin_audience''"
proof -
  have nn: "map_of d ''release_type'' \<noteq> Some PNone"
    using assms apply_business_logic_raises [of pc d AttributeError] by auto
  then obtain s where s: "dict_get d ''release_type'' (PStr []) = PStr s"
    by (cases "dict_get d ''release_type'' (PStr [])")
       (auto simp: dict_get_def split: option.splits)
  let ?F = "\<lambda>s. if str_contains ''single + video'' (py_lower (py_strip s)) then ''New Single''
                 else if str_contains ''album + video'' (py_lower (py_strip s)) then ''New Album''
                 else if str_contains ''ep + video'' (py_lower (py_strip s)) then ''New EP''
                 else if py_strip s = [] then ''New Single'' else s"
  have r1: "map_of d1 ''release_type'' = Some (PStr (?F s))"
    using apply_business_logic_release_type [OF s, of pc] assms by simp
  then have s1: "dict_get d1 ''release_type'' (PStr []) = PStr (?F s)"
    by (simp add: dict_get_def)
  have "map_of d1 ''release_type'' \<noteq> Some PNone" using r1 by simp
  then obtain d2 where d2: "apply_business_logic pc d1 = Inr d2"
    using apply_business_logic_returns by blast
  have r2: "map_of d2 ''release_type'' = Some (PStr (?F (?F s)))"
    using apply_business_logic_release_type [OF s1, of pc] d2 by simp
  have FF: "?F (?F s) = ?F s"
    using new_values_stable by simp
  have g1: "map_of d1 ''genre'' =
              Some (case map_of genre_map (dict_get d ''genre'' (PStr [])) of
                      Some g \<Rightarrow> g | None \<Rightarrow> dict_get d ''genre'' (PStr []))"
    using assms by (rule apply_business_logic_genre)
  then have gg: "dict_get d1 ''genre'' (PStr []) =
              (case map_of genre_map (dict_get d ''genre'' (PStr [])) of
                      Some g \<Rightarrow> g | None \<Rightarrow> dict_get d ''genre'' (PStr []))"
    by (simp add: dict_get_def)
  have g2: "map_of d2 ''genre'' = map_of d1 ''genre''"
    using apply_business_logic_genre [OF d2] g1
      genre_mapped_twice [of "dict_get d ''genre'' (PStr [])"]
    unfolding gg by (simp only:)
  have l: "map_of d2 ''label'' = map_of d1 ''label''"
          "map_of d2 ''latin_audience'' = map_of d1 ''latin_audience''"
    using apply_business_logic_fixed_fields [OF assms] apply_business_logic_fixed_fields [OF d2]
    by simp_all
  show ?thesis using d2 r1 r2 FF g2 l by simp
qed

theorem apply_business_logic_idempotent_witness:
  "apply_business_logic sample_pycountry
     [(''genre'', PStr ''Cumbia''), (''release_type'', PStr ''Single + Video''),
      (''label'', PStr ''X''), (''latin_audience'', PStr ''No'')]
     = Inr [(''genre'', PStr ''Tropical''), (''release_type'', PStr ''New Single''),
            (''label'', PStr ''ONErpm''), (''latin_audience'', PStr ''Yes'')]
   \<and> result_field (apply_business_logic sample_pycountry
         [(''genre'', PStr ''Tropical''), (''release_type'', PStr ''New Single''),
          (''label'', PStr ''ONErpm''), (''latin_audience'', PStr ''Yes'')]) ''genre''
       = Some (PStr ''Tropical'')
   \<and> result_field (apply_business_logic sample_pycountry
         [(''genre'', PStr ''Tropical''), (''release_type'', PStr ''New Single''),
          (''label'', PStr ''ONErpm''), (''latin_audience'', PStr ''Yes'')]) ''release_type''
       = Some (PStr ''New Single'')"
proof -
  let ?d1 = "[(''genre'', PStr ''Tropical''), (''release_type'', PStr ''New Single''),
              (''label'', PStr ''ONErpm''), (''latin_audience'', PStr ''Yes'')]"
  have h: "apply_business_logic sample_pycountry
             [(''genre'', PStr ''Cumbia''), (''release_type'', PStr ''Single + Video''),
              (''label'', PStr ''X''), (''latin_audience'', PStr ''No'')] = Inr ?d1"
    by code_simp
  from apply_business_logic_idempotent [OF h] obtain d2 where
    d2: "apply_business_logic sample_pycountry ?d1 = Inr d2"
        "map_of d2 ''genre'' = map_of ?d1 ''genre''"
        "map_of d2 ''release_type'' = map_of ?d1 ''release_type''"
    by blast
  show ?thesis using h d2 by simp
qed

end
